theory Spec2Isabelle
  imports Main
begin

section \<open>The relay server of server.js\<close>

text \<open>
  The server keeps two insertion-ordered JavaScript Maps (\<open>users\<close> and
  \<open>messageQueue\<close>), one closure variable \<open>currentAccountId\<close> per connection, and
  talks to the transport through \<open>ws.send\<close> and \<open>conn.readyState\<close>. The model threads
  all of it through one record; every handler takes the state and returns the new one.
  \<open>Date.now()\<close> and \<open>crypto.randomBytes(16).toString('hex')\<close> are inputs of the
  handler that calls them.
\<close>

subsection \<open>JavaScript values of message fields\<close>

text \<open>
  A field of a parsed frame is a JSON value, or \<open>undefined\<close> when the field is absent.
  Numbers are the integer-valued ones. An array or an object carries its reference first:
  \<open>===\<close> and the keys of a Map compare objects by reference, so two such values are the
  same object exactly when they are equal here. (\<open>JSON.parse\<close> makes new objects for every
  frame; nothing below depends on it.)
\<close>

datatype jsval =
    Undefined | Null | Bool bool | Num int | Str string
  | Arr nat "jsval list"
  | Obj nat "(string \<times> jsval) list"

text \<open>The operand test of \<open>!x\<close> and \<open>x || y\<close>: what JavaScript calls truthy.\<close>

fun truthy :: "jsval \<Rightarrow> bool" where
  "truthy Undefined = False"
| "truthy Null = False"
| "truthy (Bool b) = b"
| "truthy (Num n) = (n \<noteq> 0)"
| "truthy (Str s) = (s \<noteq> [])"
| "truthy (Arr r es) = True"
| "truthy (Obj r fs) = True"

text \<open>
  The log lines interpolate fields into template literals, which converts them to strings.
  The conversion of a parsed object calls its \<open>toString\<close>; an own property of that name
  is a JSON value, hence not callable, \<open>valueOf\<close> then yields the object itself, and a
  TypeError is thrown. Without such a property \<open>Object.prototype.toString\<close> answers. An
  array joins the conversions of its elements, \<open>null\<close> counting as the empty string, so
  it throws when an element does. Scalars and \<open>undefined\<close> always convert.
\<close>

fun toString_throws :: "jsval \<Rightarrow> bool" where
  "toString_throws (Obj r fs) = (''toString'' \<in> fst ` set fs)"
| "toString_throws (Arr r es) = (\<exists>e \<in> set es. toString_throws e)"
| "toString_throws v = False"

text \<open>How a handler ends: it returns, or the TypeError of a log line leaves it.\<close>

datatype completion = Normal | Throw

subsection \<open>Map and Set, in insertion order\<close>

text \<open>
  A JavaScript \<open>Map\<close> is a list of entries in insertion order with pairwise different
  keys; \<open>set\<close> on a present key keeps its position, on a new key appends.
  A \<open>Set\<close> is a list without repetition, \<open>add\<close> appending a new element.
\<close>

definition Map_get :: "('k \<times> 'v) list \<Rightarrow> 'k \<Rightarrow> 'v option" where
  "Map_get m k = map_of m k"

definition Map_has :: "('k \<times> 'v) list \<Rightarrow> 'k \<Rightarrow> bool" where
  "Map_has m k = (Map_get m k \<noteq> None)"

fun Map_set :: "('k \<times> 'v) list \<Rightarrow> 'k \<Rightarrow> 'v \<Rightarrow> ('k \<times> 'v) list" where
  "Map_set [] k v = [(k, v)]"
| "Map_set ((k', v') # m) k v =
     (if k' = k then (k, v) # m else (k', v') # Map_set m k v)"

definition Map_delete :: "('k \<times> 'v) list \<Rightarrow> 'k \<Rightarrow> ('k \<times> 'v) list" where
  "Map_delete m k = filter (\<lambda>e. fst e \<noteq> k) m"

definition Map_size :: "('k \<times> 'v) list \<Rightarrow> nat" where
  "Map_size m = length m"

definition Set_add :: "'a list \<Rightarrow> 'a \<Rightarrow> 'a list" where
  "Set_add s x = (if x \<in> set s then s else s @ [x])"

definition Set_delete :: "'a list \<Rightarrow> 'a \<Rightarrow> 'a list" where
  "Set_delete s x = removeAll x s"

definition Set_size :: "'a list \<Rightarrow> nat" where
  "Set_size s = length s"

subsection \<open>Data\<close>

text \<open>A connection handle \<open>ws\<close> is an object; the model names it by a number.\<close>

type_synonym conn = nat

datatype ready_state = CONNECTING | OPEN | CLOSING | CLOSED

text \<open>The object stored in \<open>users\<close> by \<open>handleRegister\<close>.\<close>

record user =
  publicKey :: jsval
  username :: jsval
  connections :: "conn list"
  registeredAt :: int

text \<open>
  \<open>messagePacket\<close> of \<open>handleSendMessage\<close>; its \<open>type\<close> field is the constant
  \<open>'newMessage'\<close>, carried by the frame constructor below.
\<close>

record packet =
  p_from :: jsval
  p_encryptedMessage :: jsval
  p_timestamp :: int
  p_id :: string

text \<open>The objects handed to \<open>JSON.stringify\<close> and \<open>ws.send\<close>, by their \<open>type\<close>.\<close>

datatype frame =
    Pong
  | ErrorFrame string
  | Registered jsval nat
  | PublicKeyFrame jsval jsval jsval
  | NewMessage packet
  | MessageSent string string

text \<open>The fields the handlers read from a parsed frame.\<close>

record message =
  m_type :: jsval
  m_accountId :: jsval
  m_publicKey :: jsval
  m_username :: jsval
  m_to :: jsval
  m_encryptedMessage :: jsval
  m_from :: jsval

text \<open>
  What \<open>JSON.parse(data.toString())\<close> makes of an inbound frame: it throws
  (\<open>Malformed\<close>), or yields \<open>null\<close>, or a boolean, number, string or array
  (\<open>ParsedOther\<close>, whose property \<open>type\<close> reads \<open>undefined\<close>), or an object.
\<close>

datatype inbound = Malformed | ParsedNull | ParsedOther | ParsedObject message

text \<open>
  The state: the two Maps, the closure variable of each connection, the transport state of
  each connection, and the log of the calls of \<open>send\<close>, oldest first.
\<close>

record world =
  users :: "(jsval \<times> user) list"
  messageQueue :: "(jsval \<times> packet list) list"
  currentAccountId :: "conn \<Rightarrow> jsval"
  readyState :: "conn \<Rightarrow> ready_state"
  outbox :: "(conn \<times> frame) list"

definition init_world :: world where
  "init_world = \<lparr>users = [], messageQueue = [], currentAccountId = (\<lambda>_. Null),
     readyState = (\<lambda>_. CLOSED), outbox = []\<rparr>"

text \<open>\<open>ws.send(JSON.stringify(f))\<close>: the frame is handed to the transport.\<close>

definition send :: "conn \<Rightarrow> frame \<Rightarrow> world \<Rightarrow> world" where
  "send ws f w = w\<lparr>outbox := outbox w @ [(ws, f)]\<rparr>"

subsection \<open>handleRegister\<close>

text \<open>\<open>queue.forEach(msg => ws.send(JSON.stringify(msg)))\<close>\<close>

fun forEach_queue :: "conn \<Rightarrow> packet list \<Rightarrow> world \<Rightarrow> world" where
  "forEach_queue ws [] w = w"
| "forEach_queue ws (msg # queue) w = forEach_queue ws queue (send ws (NewMessage msg) w)"

text \<open>
  After the \<open>has\<close>/\<open>set\<close> pair, \<open>users.get(accountId)\<close> is always an object; the
  \<open>None\<close> branch below is never taken (lemma \<open>Map_get_Map_set\<close>). The log line
  \<open>User registered: ${accountId} (${username})\<close> stands between \<open>connections.add\<close>
  and the \<open>registered\<close> frame: when it throws, the handle is attached and nothing
  is sent or flushed.
\<close>

definition handleRegister :: "conn \<Rightarrow> message \<Rightarrow> int \<Rightarrow> world \<Rightarrow> completion \<times> world" where
  "handleRegister ws message now w =
     (let accountId = m_accountId message;
          publicKey = m_publicKey message;
          username = m_username message
      in if \<not> truthy accountId \<or> \<not> truthy publicKey
         then (Normal, send ws (ErrorFrame ''Missing accountId or publicKey'') w)
         else
           let us1 = (if \<not> Map_has (users w) accountId
                      then Map_set (users w) accountId
                             \<lparr>publicKey = publicKey,
                              username = (if truthy username then username else Str ''Anonymous''),
                              connections = [],
                              registeredAt = now\<rparr>
                      else users w);
               us2 = (case Map_get us1 accountId of
                        None \<Rightarrow> us1
                      | Some user \<Rightarrow>
                          Map_set us1 accountId
                            (user\<lparr>connections := Set_add (connections user) ws\<rparr>));
               w0 = w\<lparr>users := us2\<rparr>
           in if toString_throws accountId \<or> toString_throws username
              then (Throw, w0)
              else
                let w1 = send ws (Registered accountId (Map_size us2)) w0
                in if Map_has (messageQueue w1) accountId
                   then (case Map_get (messageQueue w1) accountId of
                           None \<Rightarrow> (Normal, w1)
                         | Some queue \<Rightarrow>
                             (let w2 = forEach_queue ws queue w1
                              in (Normal,
                                  w2\<lparr>messageQueue := Map_delete (messageQueue w2) accountId\<rparr>)))
                   else (Normal, w1))"

subsection \<open>handleSendMessage\<close>

text \<open>
  \<open>recipient.connections.forEach\<close>: a connection whose \<open>readyState\<close> is \<open>OPEN\<close> gets
  the packet and sets \<open>delivered\<close>; any other is skipped. In \<open>handleSendMessage\<close> the
  test \<open>recipient && recipient.connections.size > 0\<close> has found the recipient before the
  loop runs, so the \<open>None\<close> branch of its first arm is never taken.
\<close>

fun forEach_conn :: "packet \<Rightarrow> conn list \<Rightarrow> world \<times> bool \<Rightarrow> world \<times> bool" where
  "forEach_conn pk [] (w, delivered) = (w, delivered)"
| "forEach_conn pk (c # cs) (w, delivered) =
     (if readyState w c = OPEN
      then forEach_conn pk cs (send c (NewMessage pk) w, True)
      else forEach_conn pk cs (w, delivered))"

text \<open>
  Both branches log \<open>${from} -> ${to}\<close> before they answer the sender: after the fan-out
  when something was delivered, after the \<open>push\<close> when the message was queued. When the
  log line throws, the packets are out, or the message is queued, and no \<open>messageSent\<close>
  follows.
\<close>

definition handleSendMessage ::
  "conn \<Rightarrow> message \<Rightarrow> int \<Rightarrow> string \<Rightarrow> world \<Rightarrow> completion \<times> world" where
  "handleSendMessage ws message now rid w =
     (let to = m_to message;
          encryptedMessage = m_encryptedMessage message;
          from' = m_from message
      in if \<not> truthy to \<or> \<not> truthy encryptedMessage \<or> \<not> truthy from'
         then (Normal, send ws (ErrorFrame ''Invalid message structure'') w)
         else
           let recipient = Map_get (users w) to;
               messagePacket = \<lparr>p_from = from', p_encryptedMessage = encryptedMessage,
                                p_timestamp = now, p_id = rid\<rparr>
           in if (case recipient of None \<Rightarrow> False | Some r \<Rightarrow> Set_size (connections r) > 0)
              then (case recipient of
                      None \<Rightarrow> (Normal, w)
                    | Some r \<Rightarrow>
                        (case forEach_conn messagePacket (connections r) (w, False) of
                           (w1, delivered) \<Rightarrow>
                             if delivered
                             then (if toString_throws from' \<or> toString_throws to
                                   then (Throw, w1)
                                   else (Normal, send ws (MessageSent rid ''delivered'') w1))
                             else (Normal, w1)))
              else
                (let mq1 = (if \<not> Map_has (messageQueue w) to
                            then Map_set (messageQueue w) to [] else messageQueue w);
                     mq2 = (case Map_get mq1 to of
                              None \<Rightarrow> mq1
                            | Some q \<Rightarrow> Map_set mq1 to (q @ [messagePacket]));
                     w1 = w\<lparr>messageQueue := mq2\<rparr>
                 in if toString_throws from' \<or> toString_throws to
                    then (Throw, w1)
                    else (Normal, send ws (MessageSent rid ''queued'') w1)))"

subsection \<open>handleGetPublicKey\<close>

definition handleGetPublicKey :: "conn \<Rightarrow> message \<Rightarrow> world \<Rightarrow> world" where
  "handleGetPublicKey ws message w =
     (let accountId = m_accountId message
      in case Map_get (users w) accountId of
           Some user \<Rightarrow> send ws (PublicKeyFrame accountId (publicKey user) (username user)) w
         | None \<Rightarrow> send ws (ErrorFrame ''User not found'') w)"

subsection \<open>The connection's message and close handlers\<close>

text \<open>
  Reading \<open>message.type\<close> of \<open>null\<close> throws inside the \<open>try\<close>, so \<open>null\<close> ends in
  the \<open>catch\<close> like a frame that does not parse, and so does a handler that throws. The
  assignment to \<open>currentAccountId\<close> follows the return of \<open>handleRegister\<close>, whatever
  it did; a throw skips it.
\<close>

definition onMessage :: "conn \<Rightarrow> inbound \<Rightarrow> int \<Rightarrow> string \<Rightarrow> world \<Rightarrow> world" where
  "onMessage ws data now rid w =
     (case data of
        Malformed \<Rightarrow> send ws (ErrorFrame ''Invalid message format'') w
      | ParsedNull \<Rightarrow> send ws (ErrorFrame ''Invalid message format'') w
      | ParsedOther \<Rightarrow> w
      | ParsedObject message \<Rightarrow>
          if m_type message = Str ''register'' then
            (case handleRegister ws message now w of
               (Normal, w1) \<Rightarrow>
                 w1\<lparr>currentAccountId := (currentAccountId w1)(ws := m_accountId message)\<rparr>
             | (Throw, w1) \<Rightarrow> send ws (ErrorFrame ''Invalid message format'') w1)
          else if m_type message = Str ''sendMessage'' then
            (case handleSendMessage ws message now rid w of
               (Normal, w1) \<Rightarrow> w1
             | (Throw, w1) \<Rightarrow> send ws (ErrorFrame ''Invalid message format'') w1)
          else if m_type message = Str ''getPublicKey'' then
            handleGetPublicKey ws message w
          else if m_type message = Str ''ping'' then
            send ws Pong w
          else w)"

text \<open>
  The close handler logs \<open>User ${currentAccountId} offline\<close> when the Set has become
  empty; nothing catches what this line throws.
\<close>

definition onClose :: "conn \<Rightarrow> world \<Rightarrow> completion \<times> world" where
  "onClose ws w =
     (let cur = currentAccountId w ws
      in if truthy cur \<and> Map_has (users w) cur
         then (case Map_get (users w) cur of
                 None \<Rightarrow> (Normal, w)
               | Some user \<Rightarrow>
                   (let user1 = user\<lparr>connections := Set_delete (connections user) ws\<rparr>;
                        w1 = w\<lparr>users := Map_set (users w) cur user1\<rparr>
                    in if Set_size (connections user1) = 0 \<and> toString_throws cur
                       then (Throw, w1) else (Normal, w1)))
         else (Normal, w))"

subsection \<open>The hourly cleanup\<close>

definition maxAge :: int where
  "maxAge = 7 * 24 * 60 * 60 * 1000"

text \<open>
  \<open>messageQueue.forEach\<close> visits the entries in order; the callback deletes or
  overwrites the entry it is visiting.
\<close>

fun forEach_cleanup ::
  "int \<Rightarrow> (jsval \<times> packet list) list \<Rightarrow> (jsval \<times> packet list) list
     \<Rightarrow> (jsval \<times> packet list) list" where
  "forEach_cleanup now [] mq = mq"
| "forEach_cleanup now ((accountId, messages) # es) mq =
     (let filtered = filter (\<lambda>msg. now - p_timestamp msg < maxAge) messages
      in if length filtered = 0
         then forEach_cleanup now es (Map_delete mq accountId)
         else forEach_cleanup now es (Map_set mq accountId filtered))"

definition cleanup :: "int \<Rightarrow> world \<Rightarrow> world" where
  "cleanup now w = w\<lparr>messageQueue := forEach_cleanup now (messageQueue w) (messageQueue w)\<rparr>"

subsection \<open>Events\<close>

text \<open>
  The transport opens a connection (its closure starts with \<open>currentAccountId = null\<close>),
  delivers a frame on it, or closes it; the timer fires the cleanup. A closed socket has
  \<open>readyState\<close> \<open>CLOSED\<close> when its close handler runs. An exception that leaves a
  listener uncaught ends the process: the events after it are not handled.
\<close>

datatype event =
    Connection conn
  | Message conn inbound int string
  | Close conn
  | Sweep int

fun step :: "world \<Rightarrow> event \<Rightarrow> completion \<times> world" where
  "step w (Connection ws) =
     (Normal, w\<lparr>currentAccountId := (currentAccountId w)(ws := Null),
                readyState := (readyState w)(ws := OPEN)\<rparr>)"
| "step w (Message ws data now rid) = (Normal, onMessage ws data now rid w)"
| "step w (Close ws) = onClose ws (w\<lparr>readyState := (readyState w)(ws := CLOSED)\<rparr>)"
| "step w (Sweep now) = (Normal, cleanup now w)"

fun run_from :: "world \<Rightarrow> event list \<Rightarrow> world" where
  "run_from w [] = w"
| "run_from w (e # evs) =
     (case step w e of (Normal, w1) \<Rightarrow> run_from w1 evs | (Throw, w1) \<Rightarrow> w1)"

definition run :: "event list \<Rightarrow> world" where
  "run evs = run_from init_world evs"

subsection \<open>Example frames, packets and traces\<close>

text \<open>Concrete inputs on which the properties below are evaluated.\<close>

definition msg0 :: message where
  "msg0 = \<lparr>m_type = Undefined, m_accountId = Undefined, m_publicKey = Undefined,
     m_username = Undefined, m_to = Undefined, m_encryptedMessage = Undefined,
     m_from = Undefined\<rparr>"

definition ex_register :: "jsval \<Rightarrow> jsval \<Rightarrow> message" where
  "ex_register a k = msg0\<lparr>m_type := Str ''register'', m_accountId := a, m_publicKey := k\<rparr>"

definition ex_send :: "jsval \<Rightarrow> jsval \<Rightarrow> jsval \<Rightarrow> message" where
  "ex_send f t e = msg0\<lparr>m_type := Str ''sendMessage'', m_from := f, m_to := t,
     m_encryptedMessage := e\<rparr>"

definition ex_packet :: "string \<Rightarrow> int \<Rightarrow> string \<Rightarrow> packet" where
  "ex_packet e t i = \<lparr>p_from = Str ''carol'', p_encryptedMessage = Str e, p_timestamp = t, p_id = i\<rparr>"

definition ex_queue_world :: world where
  "ex_queue_world = init_world\<lparr>messageQueue :=
     [(Str ''alice'', [ex_packet ''a'' 0 ''i0'', ex_packet ''b'' 172800000 ''i1'',
                       ex_packet ''c'' 691200000 ''i2'']),
      (Str ''bob'', [ex_packet ''d'' 0 ''i3''])]\<rparr>"

definition trace_alice_registered :: "event list" where
  "trace_alice_registered =
     [Connection 1, Message 1 (ParsedObject (ex_register (Str ''alice'') (Str ''pkA''))) 100 ''r0'',
      Connection 2]"

definition trace_bob_two_sessions :: "event list" where
  "trace_bob_two_sessions =
     [Connection 1, Message 1 (ParsedObject (ex_register (Str ''bob'') (Str ''pkB''))) 100 ''r0'',
      Connection 3, Message 3 (ParsedObject (ex_register (Str ''bob'') (Str ''pkB''))) 101 ''r1'',
      Connection 2]"

definition trace_stale_handle :: "event list" where
  "trace_stale_handle =
     [Connection 1, Message 1 (ParsedObject (ex_register (Str ''alice'') (Str ''pkA''))) 100 ''r0'',
      Message 1 (ParsedObject (ex_register (Str ''bob'') (Str ''pkB''))) 101 ''r1'',
      Close 1, Connection 2]"

definition trace_failed_register :: "event list" where
  "trace_failed_register =
     [Connection 1, Message 1 (ParsedObject (ex_register (Str ''alice'') (Str ''pkA''))) 100 ''r0'',
      Message 1 (ParsedObject (ex_register (Str ''bob'') Undefined)) 101 ''r1'']"

definition trace_two_queued :: "event list" where
  "trace_two_queued =
     [Connection 1,
      Message 1 (ParsedObject (ex_send (Str ''carol'') (Str ''bob'') (Str ''x''))) 10 ''r1'',
      Message 1 (ParsedObject (ex_send (Str ''carol'') (Str ''bob'') (Str ''y''))) 11 ''r2'',
      Connection 2]"

definition ex_unprintable :: jsval where
  "ex_unprintable = Obj 7 [(''toString'', Num 1)]"

section \<open>Properties\<close>

subsection \<open>Map operations and iteration\<close>

lemma Map_get_Map_set: "Map_get (Map_set m k v) k' = (if k' = k then Some v else Map_get m k')"
  by (induction m) (auto simp: Map_get_def)


lemma keys_Map_set:
  "map fst (Map_set m k v) = (if k \<in> fst ` set m then map fst m else map fst m @ [k])"
proof (induction m)
  case Nil
  then show ?case by simp
next
  case (Cons e m)
  obtain k' v' where e: "e = (k', v')" by (cases e)
  show ?case using Cons.IH by (cases "k' = k") (simp_all add: e)
qed

lemma Map_set_Map_set: "Map_set (Map_set m k v) k v' = Map_set m k v'"
  by (induction m) auto

lemma Map_has_keys: "Map_has m k = (k \<in> fst ` set m)"
  by (simp add: Map_has_def Map_get_def map_of_eq_None_iff)

lemma Map_get_None_keys: "(Map_get m k = None) = (k \<notin> fst ` set m)"
  by (simp add: Map_get_def map_of_eq_None_iff)

lemma Map_get_Some_keys: "Map_get m k = Some v \<Longrightarrow> k \<in> fst ` set m"
  using Map_get_None_keys [of m k] by auto

lemma Map_set_same: "Map_get m k = Some v \<Longrightarrow> Map_set m k v = m"
  by (induction m) (auto simp: Map_get_def)

lemma Map_delete_fresh: "k \<notin> fst ` set m \<Longrightarrow> Map_delete m k = m"
  by (induction m) (auto simp: Map_delete_def)

lemma Map_delete_mid:
  "k \<notin> fst ` set pre \<Longrightarrow> k \<notin> fst ` set es \<Longrightarrow> Map_delete (pre @ (k, v) # es) k = pre @ es"
  using Map_delete_fresh [of k pre] Map_delete_fresh [of k es] by (simp add: Map_delete_def)

lemma Map_set_mid:
  "k \<notin> fst ` set pre \<Longrightarrow> Map_set (pre @ (k, v) # es) k v' = pre @ (k, v') # es"
  by (induction pre) auto

lemma distinct_keys_Map_set:
  "distinct (map fst m) \<Longrightarrow> distinct (map fst (Map_set m k v))"
  by (simp add: keys_Map_set)

lemma distinct_keys_Map_delete:
  "distinct (map fst m) \<Longrightarrow> distinct (map fst (Map_delete m k))"
  by (simp add: Map_delete_def distinct_map_filter)

lemma forEach_queue_eq:
  "forEach_queue ws queue w = w\<lparr>outbox := outbox w @ map (\<lambda>msg. (ws, NewMessage msg)) queue\<rparr>"
  by (induction queue arbitrary: w) (simp_all add: send_def)

lemma forEach_conn_eq:
  "forEach_conn pk cs (w, d) =
     (w\<lparr>outbox := outbox w @ map (\<lambda>c. (c, NewMessage pk)) (filter (\<lambda>c. readyState w c = OPEN) cs)\<rparr>,
      d \<or> filter (\<lambda>c. readyState w c = OPEN) cs \<noteq> [])"
  by (induction cs arbitrary: w d) (simp_all add: send_def)

lemma forEach_cleanup_append:
  "distinct (map fst (pre @ es)) \<Longrightarrow>
     forEach_cleanup now es (pre @ es) =
       pre @ filter (\<lambda>e. snd e \<noteq> [])
               (map (\<lambda>(k, ms). (k, filter (\<lambda>msg. now - p_timestamp msg < maxAge) ms)) es)"
proof (induction es arbitrary: pre)
  case Nil
  then show ?case by simp
next
  case (Cons e es)
  obtain k ms where e: "e = (k, ms)" by (cases e)
  let ?f = "filter (\<lambda>msg. now - p_timestamp msg < maxAge) ms"
  from Cons.prems have fresh: "k \<notin> fst ` set pre" "k \<notin> fst ` set es"
    and d1: "distinct (map fst (pre @ es))"
    by (auto simp: e)
  show ?case
  proof (cases "?f = []")
    case True
    then show ?thesis
      using Cons.IH [OF d1] fresh by (simp add: e Map_delete_mid)
  next
    case False
    have d2: "distinct (map fst ((pre @ [(k, ?f)]) @ es))"
      using Cons.prems by (auto simp: e)
    show ?thesis
      using Cons.IH [OF d2] fresh False by (simp add: e Map_set_mid)
  qed
qed

subsection \<open>What handleRegister leaves\<close>

lemma handleRegister_rejects:
  assumes "\<not> truthy (m_accountId m) \<or> \<not> truthy (m_publicKey m)"
  shows "handleRegister ws m now w
           = (Normal, send ws (ErrorFrame ''Missing accountId or publicKey'') w)"
  using assms by (auto simp add: handleRegister_def Let_def)

lemma users_handleRegister:
  "users (snd (handleRegister ws m now w)) =
     (if \<not> truthy (m_accountId m) \<or> \<not> truthy (m_publicKey m) then users w
      else case Map_get (users w) (m_accountId m) of
             None \<Rightarrow>
               Map_set (users w) (m_accountId m)
                 \<lparr>publicKey = m_publicKey m,
                  username = (if truthy (m_username m) then m_username m else Str ''Anonymous''),
                  connections = [ws], registeredAt = now\<rparr>
           | Some u \<Rightarrow>
               Map_set (users w) (m_accountId m) (u\<lparr>connections := Set_add (connections u) ws\<rparr>))"
proof (cases "\<not> truthy (m_accountId m) \<or> \<not> truthy (m_publicKey m)")
  case True
  then show ?thesis by (simp add: handleRegister_rejects send_def)
next
  case False
  show ?thesis
  proof (cases "Map_get (users w) (m_accountId m)")
    case None
    with False show ?thesis
      by (simp add: handleRegister_def Let_def send_def forEach_queue_eq Map_has_def
            Map_get_Map_set Map_set_Map_set Set_add_def split: option.splits)
  next
    case (Some u)
    with False show ?thesis
      by (simp add: handleRegister_def Let_def send_def forEach_queue_eq Map_has_def
            split: option.splits)
  qed
qed

lemma keys_users_handleRegister:
  "map fst (users (snd (handleRegister ws m now w))) =
     (if truthy (m_accountId m) \<and> truthy (m_publicKey m) \<and> m_accountId m \<notin> fst ` set (users w)
      then map fst (users w) @ [m_accountId m] else map fst (users w))"
  by (auto simp add: users_handleRegister keys_Map_set Map_get_None_keys
        split: option.splits)

lemma handleRegister_throws:
  assumes "truthy (m_accountId m)" and "truthy (m_publicKey m)"
    and "toString_throws (m_accountId m) \<or> toString_throws (m_username m)"
  shows "handleRegister ws m now w = (Throw, w\<lparr>users := users (snd (handleRegister ws m now w))\<rparr>)"
  using assms by (auto simp add: handleRegister_def Let_def)

lemma handleRegister_valid:
  assumes "truthy (m_accountId m)" and "truthy (m_publicKey m)"
    and "\<not> toString_throws (m_accountId m)" and "\<not> toString_throws (m_username m)"
  shows "handleRegister ws m now w =
     (Normal,
      w\<lparr>users := users (snd (handleRegister ws m now w)),
        outbox := outbox w
          @ (ws, Registered (m_accountId m) (Map_size (users (snd (handleRegister ws m now w)))))
          # map (\<lambda>msg. (ws, NewMessage msg))
              (case Map_get (messageQueue w) (m_accountId m) of None \<Rightarrow> [] | Some q \<Rightarrow> q),
        messageQueue := Map_delete (messageQueue w) (m_accountId m)\<rparr>)"
proof (cases "Map_get (messageQueue w) (m_accountId m)")
  case None
  then have "Map_delete (messageQueue w) (m_accountId m) = messageQueue w"
    by (simp add: Map_delete_fresh Map_get_None_keys)
  with None assms show ?thesis
    by (simp add: handleRegister_def Let_def send_def Map_has_def)
next
  case (Some q)
  with assms show ?thesis
    by (simp add: handleRegister_def Let_def send_def Map_has_def forEach_queue_eq)
qed

lemma messageQueue_handleRegister:
  "messageQueue (snd (handleRegister ws m now w)) =
     (if truthy (m_accountId m) \<and> truthy (m_publicKey m)
         \<and> \<not> toString_throws (m_accountId m) \<and> \<not> toString_throws (m_username m)
      then Map_delete (messageQueue w) (m_accountId m) else messageQueue w)"
proof (cases "truthy (m_accountId m) \<and> truthy (m_publicKey m)")
  case False
  then show ?thesis by (auto simp add: handleRegister_rejects send_def)
next
  case valid: True
  show ?thesis
  proof (cases "toString_throws (m_accountId m) \<or> toString_throws (m_username m)")
    case True
    then show ?thesis using valid by (subst handleRegister_throws) auto
  next
    case False
    then show ?thesis using valid by (subst handleRegister_valid) auto
  qed
qed

subsection \<open>What handleSendMessage leaves\<close>

lemma users_handleSendMessage: "users (snd (handleSendMessage ws m now rid w)) = users w"
  by (simp add: handleSendMessage_def Let_def send_def forEach_conn_eq split: option.splits)

lemma users_handleGetPublicKey: "users (handleGetPublicKey ws m w) = users w"
  by (simp add: handleGetPublicKey_def Let_def send_def split: option.splits)

lemma send_queues_when_no_connections:
  assumes "truthy (m_to m)" and "truthy (m_from m)" and "truthy (m_encryptedMessage m)"
    and "\<not> toString_throws (m_from m)" and "\<not> toString_throws (m_to m)"
    and "case Map_get (users w) (m_to m) of None \<Rightarrow> True | Some r \<Rightarrow> connections r = []"
  shows "handleSendMessage ws m now rid w =
           (Normal,
            w\<lparr>messageQueue :=
                Map_set (messageQueue w) (m_to m)
                  ((case Map_get (messageQueue w) (m_to m) of None \<Rightarrow> [] | Some q \<Rightarrow> q)
                   @ [\<lparr>p_from = m_from m, p_encryptedMessage = m_encryptedMessage m,
                       p_timestamp = now, p_id = rid\<rparr>]),
              outbox := outbox w @ [(ws, MessageSent rid ''queued'')]\<rparr>)"
  using assms
  by (auto simp add: handleSendMessage_def Let_def send_def Set_size_def Map_has_def
        Map_get_Map_set Map_set_Map_set split: option.splits)

lemma send_dropped_when_none_open:
  assumes "truthy (m_to m)" and "truthy (m_from m)" and "truthy (m_encryptedMessage m)"
    and "Map_get (users w) (m_to m) = Some r" and "connections r \<noteq> []"
    and "\<forall>c \<in> set (connections r). readyState w c \<noteq> OPEN"
  shows "handleSendMessage ws m now rid w = (Normal, w)"
proof -
  from assms(6) have "filter (\<lambda>c. readyState w c = OPEN) (connections r) = []"
    by (auto simp: filter_empty_conv)
  with assms show ?thesis
    by (simp add: handleSendMessage_def Let_def forEach_conn_eq send_def Set_size_def)
qed

lemma distinct_queue_handleSendMessage:
  assumes "distinct (map fst (messageQueue w))"
  shows "distinct (map fst (messageQueue (snd (handleSendMessage ws m now rid w))))"
  using assms
  by (auto simp add: handleSendMessage_def Let_def send_def forEach_conn_eq
        distinct_keys_Map_set split: option.splits)

subsection \<open>The handlers of a connection, and the states the server reaches\<close>

lemma onMessage_register:
  assumes "m_type m = Str ''register''"
  shows "users (onMessage ws (ParsedObject m) now rid w) = users (snd (handleRegister ws m now w))"
    and "messageQueue (onMessage ws (ParsedObject m) now rid w)
           = messageQueue (snd (handleRegister ws m now w))"
proof -
  obtain c w1 where r: "handleRegister ws m now w = (c, w1)" by (cases "handleRegister ws m now w")
  show "users (onMessage ws (ParsedObject m) now rid w) = users (snd (handleRegister ws m now w))"
    using assms r by (cases c) (simp_all add: onMessage_def send_def)
  show "messageQueue (onMessage ws (ParsedObject m) now rid w)
           = messageQueue (snd (handleRegister ws m now w))"
    using assms r by (cases c) (simp_all add: onMessage_def send_def)
qed

lemma onMessage_sendMessage:
  assumes "m_type m = Str ''sendMessage''"
  shows "users (onMessage ws (ParsedObject m) now rid w) = users w"
    and "messageQueue (onMessage ws (ParsedObject m) now rid w)
           = messageQueue (snd (handleSendMessage ws m now rid w))"
proof -
  obtain c w1 where r: "handleSendMessage ws m now rid w = (c, w1)"
    by (cases "handleSendMessage ws m now rid w")
  have "users w1 = users w" using users_handleSendMessage [of ws m now rid w] r by simp
  then show "users (onMessage ws (ParsedObject m) now rid w) = users w"
    using assms r by (cases c) (simp_all add: onMessage_def send_def)
  show "messageQueue (onMessage ws (ParsedObject m) now rid w)
           = messageQueue (snd (handleSendMessage ws m now rid w))"
    using assms r by (cases c) (simp_all add: onMessage_def send_def)
qed

lemma onMessage_other:
  assumes "m_type m \<noteq> Str ''register''" and "m_type m \<noteq> Str ''sendMessage''"
  shows "users (onMessage ws (ParsedObject m) now rid w) = users w"
    and "messageQueue (onMessage ws (ParsedObject m) now rid w) = messageQueue w"
  using assms by (simp_all add: onMessage_def send_def handleGetPublicKey_def Let_def split: option.splits)

lemma keys_users_onClose: "map fst (users (snd (onClose ws w))) = map fst (users w)"
  by (simp add: onClose_def Let_def keys_Map_set Map_has_keys split: option.splits)

lemma messageQueue_onClose: "messageQueue (snd (onClose ws w)) = messageQueue w"
  by (simp add: onClose_def Let_def split: option.splits)

lemma onClose_absent_noop:
  assumes "Map_get (users w) (currentAccountId w ws) = Some u" and "ws \<notin> set (connections u)"
  shows "snd (onClose ws w) = w"
proof -
  have "u\<lparr>connections := Set_delete (connections u) ws\<rparr> = u"
    using assms(2) by (simp add: Set_delete_def)
  then show ?thesis
    using assms(1) by (simp add: onClose_def Let_def Map_set_same)
qed

lemma onClose_removes_handle:
  assumes "truthy (currentAccountId w ws)"
    and "Map_get (users w) (currentAccountId w ws) = Some u"
  shows "Map_get (users (snd (onClose ws w))) (currentAccountId w ws)
           = Some (u\<lparr>connections := Set_delete (connections u) ws\<rparr>)"
  using assms by (simp add: onClose_def Let_def Map_has_def Map_get_Map_set)

lemma keys_users_onMessage:
  assumes "k \<in> set (map fst (users (onMessage ws d now rid w)))"
  shows "k \<in> fst ` set (users w) \<or> truthy k"
proof (cases d)
  case (ParsedObject m)
  show ?thesis
  proof (cases "m_type m = Str ''register''")
    case True
    then have "k \<in> set (map fst (users (snd (handleRegister ws m now w))))"
      using assms ParsedObject by (simp add: onMessage_register)
    then show ?thesis
      unfolding keys_users_handleRegister by (auto split: if_splits)
  next
    case False
    then have "users (onMessage ws d now rid w) = users w"
      using ParsedObject
      by (cases "m_type m = Str ''sendMessage''") (simp_all add: onMessage_sendMessage onMessage_other)
    then show ?thesis using assms by simp
  qed
qed (use assms in \<open>simp_all add: onMessage_def send_def\<close>)

lemma keys_users_step:
  assumes "k \<in> fst ` set (users (snd (step w e)))"
  shows "k \<in> fst ` set (users w) \<or> truthy k"
proof (cases e)
  case (Message ws d now rid)
  then show ?thesis using assms keys_users_onMessage [of k ws d now rid w] by simp
next
  case (Close ws)
  have "set (map fst (users (snd (step w e)))) = set (map fst (users w))"
    using Close keys_users_onClose [of ws "w\<lparr>readyState := (readyState w)(ws := CLOSED)\<rparr>"] by simp
  then show ?thesis using assms by simp
qed (use assms in \<open>simp_all add: cleanup_def\<close>)

lemma users_keys_truthy_run_from:
  "(\<And>k. k \<in> fst ` set (users w) \<Longrightarrow> truthy k) \<Longrightarrow>
     k \<in> fst ` set (users (run_from w evs)) \<Longrightarrow> truthy k"
proof (induction evs arbitrary: w)
  case Nil
  then show ?case by simp
next
  case (Cons e evs)
  obtain c w1 where s: "step w e = (c, w1)" by (cases "step w e")
  have inv: "truthy k'" if "k' \<in> fst ` set (users w1)" for k'
    using keys_users_step [of k' w e] that s Cons.prems(1) by auto
  show ?case
  proof (cases c)
    case Normal
    then show ?thesis using Cons.IH [of w1] inv Cons.prems(2) s by simp
  next
    case Throw
    then show ?thesis using inv Cons.prems(2) s by simp
  qed
qed

lemma users_keys_truthy_run: "k \<in> fst ` set (users (run evs)) \<Longrightarrow> truthy k"
  using users_keys_truthy_run_from [of init_world k evs] by (simp add: run_def init_world_def)

lemma distinct_queue_cleanup:
  assumes "distinct (map fst (messageQueue w))"
  shows "distinct (map fst (messageQueue (cleanup now w)))"
proof -
  let ?g = "map (\<lambda>(k, ms). (k, filter (\<lambda>msg. now - p_timestamp msg < maxAge) ms))"
  have keys: "map fst (?g q) = map fst q" for q :: "(jsval \<times> packet list) list"
    by (induction q) auto
  have "distinct (map fst (?g (messageQueue w)))"
    using assms by (simp only: keys)
  then have "distinct (map fst (filter (\<lambda>e. snd e \<noteq> []) (?g (messageQueue w))))"
    by (rule distinct_map_filter)
  then show ?thesis
    using forEach_cleanup_append [of "[]" "messageQueue w" now] assms
    by (simp add: cleanup_def)
qed

lemma distinct_queue_step:
  assumes "distinct (map fst (messageQueue w))"
  shows "distinct (map fst (messageQueue (snd (step w e))))"
proof (cases e)
  case (Connection ws)
  then show ?thesis using assms by simp
next
  case (Message ws d now rid)
  show ?thesis
  proof (cases d)
    case (ParsedObject m)
    consider "m_type m = Str ''register''" | "m_type m = Str ''sendMessage''"
      | "m_type m \<noteq> Str ''register''" "m_type m \<noteq> Str ''sendMessage''" by blast
    then show ?thesis
    proof cases
      case 1
      then show ?thesis using assms Message ParsedObject
        by (simp add: onMessage_register messageQueue_handleRegister distinct_keys_Map_delete)
    next
      case 2
      then show ?thesis using Message ParsedObject distinct_queue_handleSendMessage [OF assms]
        by (simp add: onMessage_sendMessage)
    next
      case 3
      then show ?thesis using assms Message ParsedObject by (simp add: onMessage_other)
    qed
  qed (use assms Message in \<open>simp_all add: onMessage_def send_def\<close>)
next
  case (Close ws)
  then show ?thesis using assms by (simp add: messageQueue_onClose)
next
  case (Sweep now)
  then show ?thesis using distinct_queue_cleanup [OF assms] by simp
qed

lemma distinct_queue_run_from:
  "distinct (map fst (messageQueue w)) \<Longrightarrow> distinct (map fst (messageQueue (run_from w evs)))"
proof (induction evs arbitrary: w)
  case Nil
  then show ?case by simp
next
  case (Cons e evs)
  obtain c w1 where s: "step w e = (c, w1)" by (cases "step w e")
  have d: "distinct (map fst (messageQueue w1))"
    using distinct_queue_step [OF Cons.prems, of e] s by simp
  show ?case using s d Cons.IH [OF d] by (cases c) simp_all
qed

lemma distinct_queue_run: "distinct (map fst (messageQueue (run evs)))"
  using distinct_queue_run_from [of init_world evs] by (simp add: run_def init_world_def)

subsection \<open>Evaluating traces\<close>

text \<open>One event at a time: the state after an event is evaluated before the next.\<close>

lemma run_from_Cons:
  "run_from w (Connection ws # evs) =
     run_from (w\<lparr>currentAccountId := (currentAccountId w)(ws := Null),
                readyState := (readyState w)(ws := OPEN)\<rparr>) evs"
  "run_from w (Message ws d now rid # evs) = run_from (onMessage ws d now rid w) evs"
  "run_from w (Sweep now # evs) = run_from (cleanup now w) evs"
  "run_from w (Close ws # evs) =
     (if fst (onClose ws (w\<lparr>readyState := (readyState w)(ws := CLOSED)\<rparr>)) = Normal
      then run_from (snd (onClose ws (w\<lparr>readyState := (readyState w)(ws := CLOSED)\<rparr>))) evs
      else snd (onClose ws (w\<lparr>readyState := (readyState w)(ws := CLOSED)\<rparr>)))"
proof -
  obtain c w1 where "onClose ws (w\<lparr>readyState := (readyState w)(ws := CLOSED)\<rparr>) = (c, w1)"
    by (cases "onClose ws (w\<lparr>readyState := (readyState w)(ws := CLOSED)\<rparr>)")
  then show "run_from w (Close ws # evs) =
     (if fst (onClose ws (w\<lparr>readyState := (readyState w)(ws := CLOSED)\<rparr>)) = Normal
      then run_from (snd (onClose ws (w\<lparr>readyState := (readyState w)(ws := CLOSED)\<rparr>))) evs
      else snd (onClose ws (w\<lparr>readyState := (readyState w)(ws := CLOSED)\<rparr>)))"
    by (cases c) simp_all
qed simp_all

declare run_from.simps(2) [simp del]

declare run_from_Cons [simp]


lemmas handler_defs = msg0_def ex_register_def ex_send_def ex_unprintable_def
  onMessage_def onClose_def handleRegister_def handleSendMessage_def handleGetPublicKey_def
  send_def Let_def Map_has_def Map_get_def Map_delete_def Map_size_def Set_add_def
  Set_delete_def Set_size_def

lemmas ex_defs = run_def init_world_def handler_defs

lemma run_trace_bob_two_sessions: "run trace_bob_two_sessions =
  \<lparr>users = [(Str ''bob'', \<lparr>publicKey = Str ''pkB'', username = Str ''Anonymous'',
       connections = [1, 3], registeredAt = 100\<rparr>)],
   messageQueue = [],
   currentAccountId = (\<lambda>_. Null)(1 := Str ''bob'', 3 := Str ''bob'', 2 := Null),
   readyState = (\<lambda>_. CLOSED)(1 := OPEN, 3 := OPEN, 2 := OPEN),
   outbox = [(1, Registered (Str ''bob'') 1), (3, Registered (Str ''bob'') 1)]\<rparr>"
  by (simp add: trace_bob_two_sessions_def ex_defs)

lemma run_trace_alice_registered: "run trace_alice_registered =
  \<lparr>users = [(Str ''alice'', \<lparr>publicKey = Str ''pkA'', username = Str ''Anonymous'',
       connections = [1], registeredAt = 100\<rparr>)],
   messageQueue = [],
   currentAccountId = (\<lambda>_. Null)(1 := Str ''alice'', 2 := Null),
   readyState = (\<lambda>_. CLOSED)(1 := OPEN, 2 := OPEN),
   outbox = [(1, Registered (Str ''alice'') 1)]\<rparr>"
  by (simp add: trace_alice_registered_def ex_defs)



lemma send_with_unprintable_from:
  "onMessage 2 (ParsedObject (ex_send ex_unprintable (Str ''bob'') (Str ''x''))) 102 ''r2''
     (run trace_bob_two_sessions)
   = (run trace_bob_two_sessions)
       \<lparr>outbox := outbox (run trace_bob_two_sessions)
          @ [(1, NewMessage \<lparr>p_from = ex_unprintable, p_encryptedMessage = Str ''x'',
                              p_timestamp = 102, p_id = ''r2''\<rparr>),
             (3, NewMessage \<lparr>p_from = ex_unprintable, p_encryptedMessage = Str ''x'',
                              p_timestamp = 102, p_id = ''r2''\<rparr>),
             (2, ErrorFrame ''Invalid message format'')]\<rparr>"
  by (simp add: trace_bob_two_sessions_def ex_defs)

lemma register_with_unprintable_username:
  "onMessage 2 (ParsedObject ((ex_register (Str ''bob'') (Str ''pkB''))\<lparr>m_username := ex_unprintable\<rparr>))
     20 ''r3'' (run trace_two_queued)
   = (run trace_two_queued)
       \<lparr>users := [(Str ''bob'', \<lparr>publicKey = Str ''pkB'', username = ex_unprintable,
                                 connections = [2], registeredAt = 20\<rparr>)],
        outbox := outbox (run trace_two_queued) @ [(2, ErrorFrame ''Invalid message format'')]\<rparr>"
  by (simp add: trace_two_queued_def ex_defs)

section \<open>The claims\<close>

subsection \<open>C1: a send to a recipient without open connection\<close>

text \<open>
  C1. For every sendMessage with non-missing \<open>from\<close>, \<open>to\<close> and \<open>encryptedMessage\<close>,
  if the recipient account is unknown or has zero open connections, exactly one new packet is
  appended to the offline queue of \<open>to\<close> and the sender is answered with status
  \<open>queued\<close> and the packet's id.

  The code takes the queueing branch only when the account is unknown or its connection Set
  is empty (lemma \<open>send_queues_when_no_connections\<close>). When the Set holds handles none of
  which is \<open>OPEN\<close>, the \<open>forEach\<close> sends nothing, \<open>delivered\<close> stays false and
  there is no \<open>else\<close>: the message is neither queued nor answered (lemma
  \<open>send_dropped_when_none_open\<close>). The theorem runs such a case from the empty server:
  connection 1 registers as alice, then as bob, and closes, which removes it from bob's Set
  only; connection 2 then sends to alice, whose only handle is closed, and the state after
  the send is the state before it.
\<close>

theorem send_to_stale_handle_is_dropped:
  "map_option connections (Map_get (users (run trace_stale_handle)) (Str ''alice'')) = Some [1]
   \<and> readyState (run trace_stale_handle) 1 = CLOSED
   \<and> onMessage 2 (ParsedObject (ex_send (Str ''carol'') (Str ''alice'') (Str ''x''))) 102 ''r2''
        (run trace_stale_handle)
      = run trace_stale_handle"
  by (simp add: trace_stale_handle_def ex_defs)

subsection \<open>C2: a send to a recipient with an open connection\<close>

text \<open>
  C2, as amended. For every sendMessage with non-missing \<open>from\<close>, \<open>to\<close> and
  \<open>encryptedMessage\<close>, whose \<open>from\<close> and \<open>to\<close> convert to strings (as every string,
  number and boolean does), and whose recipient account exists and has at least one open
  connection: one packet is built and sent to every open connection of the account, in the
  order of the connection Set, each copy with the same id; the sender then receives
  \<open>messageSent\<close> with status \<open>delivered\<close> and that id; nothing else changes, so nothing
  is enqueued. What follows a log line that throws is not part of the statement; lemma
  \<open>send_with_unprintable_from\<close> shows it on an example.
\<close>

theorem send_delivers_to_open_connections:
  assumes "m_type m = Str ''sendMessage''"
    and "truthy (m_to m)" and "truthy (m_from m)" and "truthy (m_encryptedMessage m)"
    and "\<not> toString_throws (m_from m)" and "\<not> toString_throws (m_to m)"
    and "Map_get (users w) (m_to m) = Some r"
    and "\<exists>c \<in> set (connections r). readyState w c = OPEN"
  shows "onMessage ws (ParsedObject m) now rid w =
           w\<lparr>outbox := outbox w
               @ map (\<lambda>c. (c, NewMessage \<lparr>p_from = m_from m,
                                          p_encryptedMessage = m_encryptedMessage m,
                                          p_timestamp = now, p_id = rid\<rparr>))
                   (filter (\<lambda>c. readyState w c = OPEN) (connections r))
               @ [(ws, MessageSent rid ''delivered'')]\<rparr>"
proof -
  from assms(8) have ne: "filter (\<lambda>c. readyState w c = OPEN) (connections r) \<noteq> []"
    by (auto simp: filter_empty_conv)
  then have "connections r \<noteq> []" by auto
  with assms ne show ?thesis
    by (simp add: onMessage_def handleSendMessage_def Let_def forEach_conn_eq send_def Set_size_def)
qed

text \<open>
  C2, an instance: bob has the two open connections 1 and 3; a send from connection 2 hands
  the same packet to both and answers connection 2.
\<close>

theorem send_delivers_witness:
  "m_type (ex_send (Str ''alice'') (Str ''bob'') (Str ''x'')) = Str ''sendMessage''
   \<and> truthy (m_to (ex_send (Str ''alice'') (Str ''bob'') (Str ''x'')))
   \<and> truthy (m_from (ex_send (Str ''alice'') (Str ''bob'') (Str ''x'')))
   \<and> truthy (m_encryptedMessage (ex_send (Str ''alice'') (Str ''bob'') (Str ''x'')))
   \<and> \<not> toString_throws (m_from (ex_send (Str ''alice'') (Str ''bob'') (Str ''x'')))
   \<and> \<not> toString_throws (m_to (ex_send (Str ''alice'') (Str ''bob'') (Str ''x'')))
   \<and> Map_get (users (run trace_bob_two_sessions)) (Str ''bob'')
       = Some \<lparr>publicKey = Str ''pkB'', username = Str ''Anonymous'',
                connections = [1, 3], registeredAt = 100\<rparr>
   \<and> readyState (run trace_bob_two_sessions) 1 = OPEN
   \<and> readyState (run trace_bob_two_sessions) 3 = OPEN
   \<and> outbox (onMessage 2 (ParsedObject (ex_send (Str ''alice'') (Str ''bob'') (Str ''x''))) 102 ''r2''
        (run trace_bob_two_sessions))
      = outbox (run trace_bob_two_sessions)
        @ [(1, NewMessage \<lparr>p_from = Str ''alice'', p_encryptedMessage = Str ''x'',
                            p_timestamp = 102, p_id = ''r2''\<rparr>),
           (3, NewMessage \<lparr>p_from = Str ''alice'', p_encryptedMessage = Str ''x'',
                            p_timestamp = 102, p_id = ''r2''\<rparr>),
           (2, MessageSent ''r2'' ''delivered'')]
   \<and> messageQueue (onMessage 2 (ParsedObject (ex_send (Str ''alice'') (Str ''bob'') (Str ''x''))) 102 ''r2''
        (run trace_bob_two_sessions)) = []"
proof -
  have h: "m_type (ex_send (Str ''alice'') (Str ''bob'') (Str ''x'')) = Str ''sendMessage''"
    "truthy (m_to (ex_send (Str ''alice'') (Str ''bob'') (Str ''x'')))"
    "truthy (m_from (ex_send (Str ''alice'') (Str ''bob'') (Str ''x'')))"
    "truthy (m_encryptedMessage (ex_send (Str ''alice'') (Str ''bob'') (Str ''x'')))"
    "\<not> toString_throws (m_from (ex_send (Str ''alice'') (Str ''bob'') (Str ''x'')))"
    "\<not> toString_throws (m_to (ex_send (Str ''alice'') (Str ''bob'') (Str ''x'')))"
    by (simp_all add: ex_send_def msg0_def)
  have u: "Map_get (users (run trace_bob_two_sessions)) (m_to (ex_send (Str ''alice'') (Str ''bob'') (Str ''x'')))
       = Some \<lparr>publicKey = Str ''pkB'', username = Str ''Anonymous'',
                connections = [1, 3], registeredAt = 100\<rparr>"
    by (simp add: run_trace_bob_two_sessions ex_send_def msg0_def Map_get_def)
  have r: "readyState (run trace_bob_two_sessions) 1 = OPEN" "readyState (run trace_bob_two_sessions) 3 = OPEN"
    by (simp_all add: run_trace_bob_two_sessions)
  have e: "\<exists>c \<in> set (connections \<lparr>publicKey = Str ''pkB'', username = Str ''Anonymous'',
                connections = [1, 3], registeredAt = 100\<rparr>). readyState (run trace_bob_two_sessions) c = OPEN"
    using r by simp
  show ?thesis
    using send_delivers_to_open_connections [OF h u e, of 2 102 "''r2''"] h u r
    by (simp add: run_trace_bob_two_sessions ex_send_def msg0_def)
qed

text \<open>
  C2 as first stated speaks of every sendMessage whose recipient is online. The validation
  at the head of \<open>handleSendMessage\<close> comes first: a frame without \<open>from\<close> addressed
  to bob, who has open connections, delivers nothing and is answered with an error frame.
\<close>

theorem send_without_from_counterexample:
  "map_option connections (Map_get (users (run trace_bob_two_sessions)) (Str ''bob'')) = Some [1, 3]
   \<and> readyState (run trace_bob_two_sessions) 1 = OPEN
   \<and> onMessage 2 (ParsedObject (ex_send Undefined (Str ''bob'') (Str ''x''))) 102 ''r2''
        (run trace_bob_two_sessions)
      = (run trace_bob_two_sessions)
          \<lparr>outbox := outbox (run trace_bob_two_sessions)
                      @ [(2, ErrorFrame ''Invalid message structure'')]\<rparr>"
  by (simp add: trace_bob_two_sessions_def ex_defs)

subsection \<open>C3: registering an id that has an account\<close>

text \<open>
  C3. For every register of an id that already has an Account, the stored \<open>publicKey\<close>,
  \<open>username\<close> and \<open>registeredAt\<close> stay as they are, whatever the frame supplies; the
  account after the register is the account before it with the registering handle added to
  its connection Set (added when the register is accepted; a register rejected for a missing
  \<open>publicKey\<close> changes nothing at all). No account is created and no other account is
  touched. The state is the one \<open>handleRegister\<close> leaves, also when its log line throws:
  the handle is attached before that line.
\<close>

theorem register_existing_keeps_identity:
  assumes "Map_get (users w) (m_accountId m) = Some u"
  shows "Map_get (users (snd (handleRegister ws m now w))) (m_accountId m)
           = Some (u\<lparr>connections :=
                       (if truthy (m_accountId m) \<and> truthy (m_publicKey m)
                        then Set_add (connections u) ws else connections u)\<rparr>)
         \<and> map fst (users (snd (handleRegister ws m now w))) = map fst (users w)
         \<and> (\<forall>k. k \<noteq> m_accountId m \<longrightarrow>
               Map_get (users (snd (handleRegister ws m now w))) k = Map_get (users w) k)"
  using assms
  by (auto simp add: users_handleRegister Map_get_Map_set keys_Map_set dest: Map_get_Some_keys)

text \<open>
  C3, an instance: alice is registered with key \<open>pkA\<close> on connection 1; connection 2
  registers alice with another key and a username; key, username and time of registration
  stay, and the connection Set becomes 1, 2.
\<close>

theorem register_existing_witness:
  "Map_get (users (run trace_alice_registered)) (Str ''alice'')
     = Some \<lparr>publicKey = Str ''pkA'', username = Str ''Anonymous'',
              connections = [1], registeredAt = 100\<rparr>
   \<and> Map_get (users (snd (handleRegister 2
         ((ex_register (Str ''alice'') (Str ''pkOther''))\<lparr>m_username := Str ''mallory''\<rparr>) 200
         (run trace_alice_registered)))) (Str ''alice'')
     = Some \<lparr>publicKey = Str ''pkA'', username = Str ''Anonymous'',
              connections = [1, 2], registeredAt = 100\<rparr>"
proof -
  let ?m = "(ex_register (Str ''alice'') (Str ''pkOther''))\<lparr>m_username := Str ''mallory''\<rparr>"
  have id: "m_accountId ?m = Str ''alice''" "truthy (m_publicKey ?m)"
    by (simp_all add: ex_register_def msg0_def)
  have u: "Map_get (users (run trace_alice_registered)) (m_accountId ?m)
     = Some \<lparr>publicKey = Str ''pkA'', username = Str ''Anonymous'',
              connections = [1], registeredAt = 100\<rparr>"
    by (simp add: id run_trace_alice_registered Map_get_def)
  show ?thesis
    using register_existing_keeps_identity [OF u, of 2 200] u id
    by (simp add: Set_add_def)
qed

subsection \<open>C4: validation errors\<close>

text \<open>
  C4. For every register with \<open>accountId\<close> or \<open>publicKey\<close> missing, and for every
  sendMessage with \<open>to\<close>, \<open>from\<close> or \<open>encryptedMessage\<close> missing, exactly one error
  frame is sent to the originating connection and neither \<open>users\<close> nor
  \<open>messageQueue\<close> changes. Missing is what the code tests with \<open>!x\<close>: the field is
  absent or holds a falsy value. (After a rejected register the connection's
  \<open>currentAccountId\<close> is still assigned; for a rejected sendMessage the whole state but
  the outbox is the same.)
\<close>

theorem validation_error_no_state_change:
  "(m_type m = Str ''register'' \<and> (\<not> truthy (m_accountId m) \<or> \<not> truthy (m_publicKey m)) \<longrightarrow>
      outbox (onMessage ws (ParsedObject m) now rid w)
        = outbox w @ [(ws, ErrorFrame ''Missing accountId or publicKey'')]
      \<and> users (onMessage ws (ParsedObject m) now rid w) = users w
      \<and> messageQueue (onMessage ws (ParsedObject m) now rid w) = messageQueue w
      \<and> readyState (onMessage ws (ParsedObject m) now rid w) = readyState w)
   \<and> (m_type m = Str ''sendMessage''
        \<and> (\<not> truthy (m_to m) \<or> \<not> truthy (m_from m) \<or> \<not> truthy (m_encryptedMessage m)) \<longrightarrow>
      onMessage ws (ParsedObject m) now rid w
        = w\<lparr>outbox := outbox w @ [(ws, ErrorFrame ''Invalid message structure'')]\<rparr>)"
  by (auto simp add: onMessage_def handleRegister_def handleSendMessage_def send_def Let_def)

text \<open>
  C4, two instances on the empty server: a register without \<open>publicKey\<close> and a
  sendMessage without \<open>encryptedMessage\<close>.
\<close>

theorem validation_error_witness:
  "(m_type (msg0\<lparr>m_type := Str ''register'', m_accountId := Str ''alice''\<rparr>) = Str ''register''
    \<and> \<not> truthy (m_publicKey (msg0\<lparr>m_type := Str ''register'', m_accountId := Str ''alice''\<rparr>))
    \<and> outbox (onMessage 1 (ParsedObject (msg0\<lparr>m_type := Str ''register'', m_accountId := Str ''alice''\<rparr>)) 5 ''r'' init_world)
           = [(1, ErrorFrame ''Missing accountId or publicKey'')]
    \<and> users (onMessage 1 (ParsedObject (msg0\<lparr>m_type := Str ''register'', m_accountId := Str ''alice''\<rparr>)) 5 ''r'' init_world) = [])
   \<and> (m_type (msg0\<lparr>m_type := Str ''sendMessage'', m_to := Str ''bob'', m_from := Str ''alice''\<rparr>) = Str ''sendMessage''
      \<and> \<not> truthy (m_encryptedMessage (msg0\<lparr>m_type := Str ''sendMessage'', m_to := Str ''bob'', m_from := Str ''alice''\<rparr>))
      \<and> outbox (onMessage 1 (ParsedObject (msg0\<lparr>m_type := Str ''sendMessage'', m_to := Str ''bob'', m_from := Str ''alice''\<rparr>)) 5 ''r'' init_world)
             = [(1, ErrorFrame ''Invalid message structure'')]
      \<and> messageQueue (onMessage 1 (ParsedObject (msg0\<lparr>m_type := Str ''sendMessage'', m_to := Str ''bob'', m_from := Str ''alice''\<rparr>)) 5 ''r'' init_world) = [])"
  using validation_error_no_state_change
          [of "msg0\<lparr>m_type := Str ''register'', m_accountId := Str ''alice''\<rparr>" 1 5 "''r''" init_world]
        validation_error_no_state_change
          [of "msg0\<lparr>m_type := Str ''sendMessage'', m_to := Str ''bob'', m_from := Str ''alice''\<rparr>" 1 5 "''r''" init_world]
  by (simp add: msg0_def init_world_def)

subsection \<open>C5: the flush on registration\<close>



subsection \<open>C6: the cleanup sweep on the queue\<close>

text \<open>
  C6. For every cleanup sweep at time \<open>now\<close>, the sequence of each account is replaced by
  its subsequence of the messages with \<open>now - timestamp\<close> below 7 days (604800000 ms), in
  the same relative order, and an account whose filtered sequence is empty loses its key; no
  empty sequence remains after a sweep. The hypothesis says that the queue is a Map: its keys
  are pairwise different, as they are in every state the server reaches (lemma
  \<open>distinct_queue_run\<close>).
\<close>

theorem cleanup_filters_queues:
  assumes "distinct (map fst (messageQueue w))"
  shows "messageQueue (cleanup now w) =
           filter (\<lambda>e. snd e \<noteq> [])
             (map (\<lambda>(k, ms). (k, filter (\<lambda>msg. now - p_timestamp msg < 604800000) ms))
                (messageQueue w))
         \<and> (\<forall>e \<in> set (messageQueue (cleanup now w)). snd e \<noteq> [])"
proof -
  have "messageQueue (cleanup now w) =
           filter (\<lambda>e. snd e \<noteq> [])
             (map (\<lambda>(k, ms). (k, filter (\<lambda>msg. now - p_timestamp msg < 604800000) ms))
                (messageQueue w))"
    using forEach_cleanup_append [of "[]" "messageQueue w" now] assms
    by (simp add: cleanup_def maxAge_def)
  then show ?thesis by simp
qed

text \<open>
  C6, an instance: at day 8, alice holds messages of age 8 days, 6 days and 0, bob one of age
  8 days; after the sweep alice keeps the last two and bob has no entry.
\<close>

theorem cleanup_witness:
  "distinct (map fst (messageQueue ex_queue_world))
   \<and> messageQueue (cleanup 691200000 ex_queue_world)
       = [(Str ''alice'', [ex_packet ''b'' 172800000 ''i1'', ex_packet ''c'' 691200000 ''i2''])]"
  using cleanup_filters_queues [of ex_queue_world 691200000]
  by (simp add: ex_queue_world_def init_world_def ex_packet_def)

subsection \<open>C7: the cleanup sweep leaves the accounts alone\<close>

text \<open>
  C7. For every cleanup sweep, \<open>users\<close> is unchanged: no Account is created, deleted or
  modified and no connection handle is added or removed. Nor does the sweep touch the
  connections' \<open>currentAccountId\<close>, their transport state or the outbox.
\<close>

theorem cleanup_frame:
  "users (cleanup now w) = users w \<and> currentAccountId (cleanup now w) = currentAccountId w
   \<and> readyState (cleanup now w) = readyState w \<and> outbox (cleanup now w) = outbox w"
  by (simp add: cleanup_def)

subsection \<open>C8: the close handler\<close>

text \<open>
  C8. For every connection close, the server resolves the account id captured at the most
  recent successful register on that connection and removes the handle from that account's
  connection Set; removing an absent handle is a no-op and the Account is never deleted.

  The last two parts hold (lemmas \<open>onClose_absent_noop\<close>, \<open>keys_users_onClose\<close>), and
  the handle is removed from the account named by \<open>currentAccountId\<close> (lemma
  \<open>onClose_removes_handle\<close>). But \<open>currentAccountId\<close> is assigned after every register
  frame, also one that \<open>handleRegister\<close> rejected. The theorem runs such a case:
  connection 1 registers as alice, then sends a register for bob without \<open>publicKey\<close>, which
  is answered with an error; \<open>currentAccountId\<close> is now bob, and after the close alice's
  connection Set still holds handle 1.
\<close>

theorem close_after_failed_register_keeps_handle:
  "outbox (run trace_failed_register)
     = [(1, Registered (Str ''alice'') 1), (1, ErrorFrame ''Missing accountId or publicKey'')]
   \<and> currentAccountId (run trace_failed_register) 1 = Str ''bob''
   \<and> map_option connections (Map_get (users (run trace_failed_register)) (Str ''alice'')) = Some [1]
   \<and> map_option connections
         (Map_get (users (snd (step (run trace_failed_register) (Close 1)))) (Str ''alice''))
       = Some [1]"
  by (simp add: trace_failed_register_def ex_defs)

subsection \<open>C9: frames that do not parse\<close>

text \<open>
  C9, as amended. For every inbound frame on which \<open>JSON.parse\<close> throws, and for the frame
  that parses to \<open>null\<close> (whose \<open>type\<close> cannot be read), exactly one error frame is sent
  to the originating connection; \<open>users\<close>, \<open>messageQueue\<close>, \<open>currentAccountId\<close> and the
  transport state of every connection are unchanged, so the server does not close the
  connection. A frame that parses to a boolean, a number, a string or an array has no
  \<open>type\<close> and goes the way of an unknown type: it is logged and dropped, no frame is
  sent and nothing changes.
\<close>

theorem malformed_frame_error:
  "onMessage ws Malformed now rid w = w\<lparr>outbox := outbox w @ [(ws, ErrorFrame ''Invalid message format'')]\<rparr>
   \<and> onMessage ws ParsedNull now rid w = w\<lparr>outbox := outbox w @ [(ws, ErrorFrame ''Invalid message format'')]\<rparr>
   \<and> onMessage ws ParsedOther now rid w = w"
  by (simp add: onMessage_def send_def)

text \<open>
  C9 as first stated speaks of every frame that cannot be parsed into a structured message.
  The frame \<open>42\<close> is none, and the server, here with alice registered, sends nothing back
  on it.
\<close>

theorem scalar_frame_counterexample:
  "outbox (onMessage 2 ParsedOther 300 ''r3'' (run trace_alice_registered))
     = outbox (run trace_alice_registered)
   \<and> outbox (run trace_alice_registered) = [(1, Registered (Str ''alice'') 1)]"
  by (simp add: run_trace_alice_registered onMessage_def)

subsection \<open>C10: getPublicKey without accountId\<close>

text \<open>
  C10. For every getPublicKey frame whose \<open>accountId\<close> is missing, in every state the
  server reaches, the answer is the error frame \<open>User not found\<close> and nothing else
  changes; it is the answer a getPublicKey for an unregistered id gets. There is no
  validation of its own: \<open>undefined\<close> is looked up like any id, and it is never a key of
  \<open>users\<close>, since \<open>handleRegister\<close> rejects it.
\<close>

theorem getPublicKey_missing_id:
  assumes "m_type m = Str ''getPublicKey''" and "m_accountId m = Undefined"
  shows "onMessage ws (ParsedObject m) now rid (run evs)
           = (run evs)\<lparr>outbox := outbox (run evs) @ [(ws, ErrorFrame ''User not found'')]\<rparr>
         \<and> (Map_get (users (run evs)) k = None \<longrightarrow>
              onMessage ws (ParsedObject (m\<lparr>m_accountId := k\<rparr>)) now rid (run evs)
                = onMessage ws (ParsedObject m) now rid (run evs))"
proof -
  have "Undefined \<notin> fst ` set (users (run evs))"
    using users_keys_truthy_run [of Undefined evs] by auto
  then have none: "Map_get (users (run evs)) Undefined = None"
    by (simp add: Map_get_None_keys)
  show ?thesis using assms none
    by (simp add: onMessage_def handleGetPublicKey_def send_def Let_def)
qed

text \<open>
  C10, an instance: with alice registered, a getPublicKey without \<open>accountId\<close> and one
  for the unregistered bob get the same answer.
\<close>

theorem getPublicKey_missing_witness:
  "m_type (msg0\<lparr>m_type := Str ''getPublicKey''\<rparr>) = Str ''getPublicKey''
   \<and> m_accountId (msg0\<lparr>m_type := Str ''getPublicKey''\<rparr>) = Undefined
   \<and> Map_get (users (run trace_alice_registered)) (Str ''bob'') = None
   \<and> onMessage 2 (ParsedObject (msg0\<lparr>m_type := Str ''getPublicKey''\<rparr>)) 300 ''r3''
        (run trace_alice_registered)
      = (run trace_alice_registered)
          \<lparr>outbox := outbox (run trace_alice_registered) @ [(2, ErrorFrame ''User not found'')]\<rparr>
   \<and> onMessage 2 (ParsedObject (msg0\<lparr>m_type := Str ''getPublicKey'', m_accountId := Str ''bob''\<rparr>))
        300 ''r3'' (run trace_alice_registered)
      = onMessage 2 (ParsedObject (msg0\<lparr>m_type := Str ''getPublicKey''\<rparr>)) 300 ''r3''
          (run trace_alice_registered)"
proof -
  have h: "m_type (msg0\<lparr>m_type := Str ''getPublicKey''\<rparr>) = Str ''getPublicKey''"
    "m_accountId (msg0\<lparr>m_type := Str ''getPublicKey''\<rparr>) = Undefined"
    by (simp_all add: msg0_def)
  have n: "Map_get (users (run trace_alice_registered)) (Str ''bob'') = None"
    by (simp add: run_trace_alice_registered Map_get_def)
  show ?thesis
    using getPublicKey_missing_id [OF h, of 2 300 "''r3''" trace_alice_registered "Str ''bob''"] h n
    by simp
qed

end
